theory Spec2Isabelle
  imports
    Complex_Main
    "HOL-Library.Multiset"
    "HOL-Library.Char_ord"
    "HOL-Library.List_Lexorder"
    "HOL-Library.Product_Lexorder"
begin

unbundle bit_operations_syntax

section \<open>Errors\<close>

text \<open>
  The Python exceptions that the modelled functions of \<^verbatim>\<open>prepare_tableau.py\<close> can raise.
  A function that can raise returns \<open>py_error + 'a\<close>, with \<open>Inl\<close> for the exception.
\<close>

datatype py_error = ValueError | IndexError | KeyError | ZeroDivisionError

section \<open>The quadkey decoder\<close>

text \<open>
  \<^verbatim>\<open>TableauDataPreparer._decode_quadkey_to_latlon\<close> (prepare_tableau.py, lines 176-217).

  A quadkey is a \<open>string\<close>: a list of characters with code points below 256. In that range
  Python's \<^verbatim>\<open>int(c)\<close> of a one-character string succeeds exactly on the ten ASCII digits
  and raises \<^verbatim>\<open>ValueError\<close> on every other character. Python integers are unbounded
  (\<open>int\<close>); the floating-point operations (true division, \<^verbatim>\<open>np.exp\<close>,
  \<^verbatim>\<open>np.arctan\<close>, \<^verbatim>\<open>np.pi\<close>) are modelled by their real-number counterparts, so
  rounding is not part of the model.
\<close>

definition is_decimal :: "char \<Rightarrow> bool" where
  "is_decimal c \<longleftrightarrow> c \<in> set ''0123456789''"

definition py_int :: "char \<Rightarrow> py_error + int" where
  "py_int c =
     (if is_decimal c then Inr (int (of_char c) - 48) else Inl ValueError)"

text \<open>
  The \<^verbatim>\<open>for i in range(level_of_detail)\<close> loop, as a recursion over the indices still to
  visit; \<open>tile_x\<close> and \<open>tile_y\<close> are the two accumulators. The \<^verbatim>\<open>if/elif\<close> chain has
  no \<^verbatim>\<open>else\<close>: any other digit leaves both accumulators as they are.
\<close>

fun decode_loop :: "string \<Rightarrow> nat list \<Rightarrow> int \<Rightarrow> int \<Rightarrow> py_error + (int \<times> int)" where
  "decode_loop quadkey [] tile_x tile_y = Inr (tile_x, tile_y)"
| "decode_loop quadkey (i # rest) tile_x tile_y =
     (let mask = push_bit (length quadkey - 1 - i) (1::int) in
      case py_int (quadkey ! i) of
        Inl e \<Rightarrow> Inl e
      | Inr digit \<Rightarrow>
          if digit = 1 then decode_loop quadkey rest (tile_x OR mask) tile_y
          else if digit = 2 then decode_loop quadkey rest tile_x (tile_y OR mask)
          else if digit = 3 then decode_loop quadkey rest (tile_x OR mask) (tile_y OR mask)
          else decode_loop quadkey rest tile_x tile_y)"

definition latlon_of_tile :: "nat \<Rightarrow> int \<Rightarrow> int \<Rightarrow> real \<times> real" where
  "latlon_of_tile level_of_detail tile_x tile_y =
     (let map_size = push_bit level_of_detail (256::int);
          pixel_x = tile_x * 256 + 128;
          pixel_y = tile_y * 256 + 128;
          x = real_of_int pixel_x / real_of_int map_size - 0.5;
          y = 0.5 - real_of_int pixel_y / real_of_int map_size;
          longitude = 360 * x;
          latitude = 90 - 360 * arctan (exp (- y * 2 * pi)) / pi
      in (latitude, longitude))"

definition decode_quadkey_to_latlon :: "string \<Rightarrow> py_error + (real \<times> real)" where
  "decode_quadkey_to_latlon quadkey =
     (let level_of_detail = length quadkey in
      case decode_loop quadkey [0..<level_of_detail] 0 0 of
        Inl e \<Rightarrow> Inl e
      | Inr (tile_x, tile_y) \<Rightarrow> Inr (latlon_of_tile level_of_detail tile_x tile_y))"

subsection \<open>The reference algorithm of the specification\<close>







section \<open>Tables\<close>

text \<open>
  A pandas cell is a value or the missing value \<^verbatim>\<open>NaN\<close>. Sorting a column puts the
  missing values last (\<^verbatim>\<open>na_position='last'\<close>, the default of \<^verbatim>\<open>sort_values\<close> and of a
  sorted \<^verbatim>\<open>groupby\<close> with \<^verbatim>\<open>dropna=False\<close>): this is the order on \<open>'a cell\<close>. Strings
  are compared as Python compares them, character by character.
\<close>

datatype 'a cell = Val 'a | NaN

instantiation cell :: (linorder) linorder
begin

definition less_eq_cell :: "'a cell \<Rightarrow> 'a cell \<Rightarrow> bool" where
  "less_eq_cell x y =
     (case y of NaN \<Rightarrow> True | Val b \<Rightarrow> (case x of NaN \<Rightarrow> False | Val a \<Rightarrow> a \<le> b))"

definition less_cell :: "'a cell \<Rightarrow> 'a cell \<Rightarrow> bool" where
  "less_cell x y = (x \<le> y \<and> \<not> y \<le> x)"

instance
  by standard (auto simp: less_eq_cell_def less_cell_def split: cell.splits)

end

text \<open>
  Element-wise comparison of two columns: a comparison with a missing value is false
  for \<^verbatim>\<open>==\<close> and true for \<^verbatim>\<open>!=\<close>.
\<close>

definition pd_eq :: "'a cell \<Rightarrow> 'a cell \<Rightarrow> bool" where
  "pd_eq a b = (case a of NaN \<Rightarrow> False | Val x \<Rightarrow> (case b of NaN \<Rightarrow> False | Val y \<Rightarrow> x = y))"

definition pd_ne :: "'a cell \<Rightarrow> 'a cell \<Rightarrow> bool" where
  "pd_ne a b = (\<not> pd_eq a b)"

text \<open>The values of a column that are present (\<^verbatim>\<open>skipna=True\<close>).\<close>

fun dropna :: "'a cell list \<Rightarrow> 'a list" where
  "dropna [] = []"
| "dropna (Val v # xs) = v # dropna xs"
| "dropna (NaN # xs) = dropna xs"

text \<open>
  The reductions of \<^verbatim>\<open>groupby(...).agg\<close>. Each skips the missing values; \<^verbatim>\<open>mean\<close>,
  \<^verbatim>\<open>min\<close> and \<^verbatim>\<open>max\<close> of no value are missing, \<^verbatim>\<open>std\<close> is the sample standard
  deviation (\<^verbatim>\<open>ddof=1\<close>), missing below two values, and \<^verbatim>\<open>sum\<close> of no value is 0.
  Measurements are real numbers here: rounding is not modelled.
\<close>

definition agg_mean :: "real cell list \<Rightarrow> real cell" where
  "agg_mean xs =
     (let vs = dropna xs in if vs = [] then NaN else Val (sum_list vs / real (length vs)))"





text \<open>
  A data frame: the names of its columns and its rows. A row is a record with one field
  for every column the program reads; the field of a column that the frame does not
  have is not read. The columns of the grouping key come first and are shared by the
  three kinds of rows (tile measurements, aggregated bins, comparison rows).
\<close>

record 'r frame =
  columns :: "string list"
  rows :: "'r list"

record key_cols =
  quadkey :: string
  year :: "int cell"
  quarter :: "int cell"
  data_type :: string
  name :: "string cell"
  region :: "string cell"
  country :: "string cell"
  latitude :: "real cell"
  longitude :: "real cell"

record tile_row = key_cols +
  avg_d_kbps :: "real cell"
  avg_u_kbps :: "real cell"
  avg_lat_ms :: "real cell"
  tests :: "int cell"
  devices :: "int cell"
  avg_d_mbps :: "real cell"
  avg_u_mbps :: "real cell"

record agg_row = key_cols +
  avg_d_kbps_mean :: "real cell"
  avg_d_kbps_min :: "real cell"
  avg_d_kbps_max :: "real cell"
  avg_d_kbps_std :: "real cell"
  avg_u_kbps_mean :: "real cell"
  avg_u_kbps_min :: "real cell"
  avg_u_kbps_max :: "real cell"
  avg_u_kbps_std :: "real cell"
  avg_lat_ms_mean :: "real cell"
  avg_lat_ms_min :: "real cell"
  avg_lat_ms_max :: "real cell"
  tests_sum :: "int cell"
  devices_sum :: "int cell"
  avg_d_mbps_mean :: "real cell"
  avg_d_mbps_min :: "real cell"
  avg_d_mbps_max :: "real cell"
  avg_u_mbps_mean :: "real cell"
  avg_u_mbps_min :: "real cell"
  avg_u_mbps_max :: "real cell"

text \<open>
  The result of a float division: a finite number, an infinity or \<^verbatim>\<open>NaN\<close> (which pandas
  shows as a missing value).
\<close>

datatype fl = Fin real | PInf | NInf | FNaN

record merged_row = agg_row +
  baseline_d_kbps :: "real cell"
  baseline_u_kbps :: "real cell"
  d_kbps_pct_change :: fl
  u_kbps_pct_change :: fl

record comparison_row = merged_row +
  time_period :: "real cell"
  d_kbps_qoq_change :: fl
  u_kbps_qoq_change :: fl
  is_year_transition :: bool
  d_kbps_cumulative_change :: fl
  u_kbps_cumulative_change :: fl

section \<open>Writing a table to a workbook\<close>

text \<open>
  \<^verbatim>\<open>TableauDataPreparer._create_excel_file\<close> (prepare_tableau.py, lines 338-391) with
  \<^verbatim>\<open>TABLEAU_CONFIG['excel_row_limit']\<close> (config.py, line 119). The model returns the
  sheets written to the workbook, in the order they are written: the name of each sheet
  and the chunk of the table on it. Cell formats and column widths are left out.
\<close>

definition excel_row_limit :: int where
  "excel_row_limit = 900000"

definition py_range :: "int \<Rightarrow> int list" where
  "py_range n = map int [0..<nat n]"

text \<open>\<^verbatim>\<open>df.iloc[start_row:end_row]\<close> for two indices that are not negative.\<close>

definition iloc_slice :: "'a list \<Rightarrow> int \<Rightarrow> int \<Rightarrow> 'a list" where
  "iloc_slice df start_row end_row = take (nat end_row - nat start_row) (drop (nat start_row) df)"

text \<open>The decimal digits of an integer, as an f-string prints them.\<close>

fun py_str_nat :: "nat \<Rightarrow> string" where
  "py_str_nat n =
     (if n < 10 then [char_of (48 + n)]
      else py_str_nat (n div 10) @ [char_of (48 + n mod 10)])"

declare py_str_nat.simps [simp del]

definition py_str :: "int \<Rightarrow> string" where
  "py_str i = (if i < 0 then CHR ''-'' # py_str_nat (nat (- i)) else py_str_nat (nat i))"

definition write_sheets :: "int \<Rightarrow> 'r frame \<Rightarrow> string \<Rightarrow> (string \<times> 'r frame) list" where
  "write_sheets max_rows df sheet_name =
     (let num_chunks = (int (length (rows df)) - 1) div max_rows + 1 in
      map (\<lambda>chunk_idx.
             let start_row = chunk_idx * max_rows;
                 end_row = min ((chunk_idx + 1) * max_rows) (int (length (rows df)));
                 chunk_data = df\<lparr>rows := iloc_slice (rows df) start_row end_row\<rparr>;
                 chunk_sheet_name =
                   (if num_chunks > 1 then sheet_name @ ''_'' @ py_str (chunk_idx + 1)
                    else sheet_name)
             in (chunk_sheet_name, chunk_data))
          (py_range num_chunks))"

definition create_excel_file :: "'r frame \<Rightarrow> string \<Rightarrow> (string \<times> 'r frame) list" where
  "create_excel_file df sheet_name = write_sheets excel_row_limit df sheet_name"

text \<open>
  Two notions used to state the properties of the split: the number of sheets that a
  table of \<open>n\<close> rows needs at \<open>m\<close> rows a sheet, and the number that a string of
  decimal digits writes.
\<close>

definition num_sheets :: "nat \<Rightarrow> nat \<Rightarrow> nat" where
  "num_sheets m n = (if n = 0 then 0 else (n - 1) div m + 1)"

definition nat_of_digits :: "string \<Rightarrow> nat" where
  "nat_of_digits s = foldl (\<lambda>a c. 10 * a + (of_char c - 48)) 0 s"

section \<open>Aggregation\<close>
















text \<open>
  Used to state properties: a row with the coordinates that the decoder gives for its
  quadkey, and the value of a count cell, a missing one counting as 0.
\<close>

definition with_latlon :: "tile_row \<Rightarrow> tile_row" where
  "with_latlon r =
     (case decode_quadkey_to_latlon (quadkey r) of
        Inl e \<Rightarrow> r
      | Inr x \<Rightarrow> r\<lparr>latitude := Val (fst x), longitude := Val (snd x)\<rparr>)"


section \<open>Comparison with the baseline period\<close>

text \<open>
  \<^verbatim>\<open>TableauDataPreparer._create_comparison_file\<close> (prepare_tableau.py, lines 393-476).

  The percent change \<^verbatim>\<open>(value - base) / base * 100\<close> is a float computation on two
  columns: a missing operand gives \<^verbatim>\<open>NaN\<close>, and a division by zero raises nothing but
  gives an infinity with the sign of the numerator, or \<^verbatim>\<open>NaN\<close> for \<^verbatim>\<open>0/0\<close>. The
  measurements are finite or missing; zero is the positive zero.
\<close>

definition pct_change :: "real cell \<Rightarrow> real cell \<Rightarrow> fl" where
  "pct_change v b =
     (case v of
        NaN \<Rightarrow> FNaN
      | Val x \<Rightarrow>
          (case b of
             NaN \<Rightarrow> FNaN
           | Val y \<Rightarrow>
               if y \<noteq> 0 then Fin ((x - y) / y * 100)
               else if 0 < x then PInf
               else if x < 0 then NInf
               else FNaN))"

text \<open>\<^verbatim>\<open>df.sort_values(['year', 'quarter'])\<close>: a stable sort, missing values last.\<close>

definition sort_values_yq :: "('a key_cols_scheme) list \<Rightarrow> ('a key_cols_scheme) list" where
  "sort_values_yq rs = sort_key (\<lambda>r. (year r, quarter r)) rs"

text \<open>\<^verbatim>\<open>comparison.sort_values(['quadkey', 'year', 'quarter'])\<close>.\<close>

definition sort_values_qyq :: "('a key_cols_scheme) list \<Rightarrow> ('a key_cols_scheme) list" where
  "sort_values_qyq rs = sort_key (\<lambda>r. (quadkey r, year r, quarter r)) rs"

text \<open>
  The baseline metrics: for each quadkey of the baseline rows, the mean of the two speed
  columns over the baseline rows of that quadkey.
\<close>

definition baseline_metrics :: "agg_row list \<Rightarrow> (string \<times> real cell \<times> real cell) list" where
  "baseline_metrics baseline =
     map (\<lambda>q. (q,
                agg_mean (map avg_d_kbps_mean (filter (\<lambda>r. quadkey r = q) baseline)),
                agg_mean (map avg_u_kbps_mean (filter (\<lambda>r. quadkey r = q) baseline))))
         (sort (remdups (map quadkey baseline)))"

text \<open>
  \<^verbatim>\<open>df.merge(baseline_metrics, on='quadkey', how='left')\<close> followed by the two percent
  changes from the baseline: the rows keep their order, and a row whose quadkey has no
  baseline metrics gets missing values.
\<close>

definition merge_row :: "(string \<times> real cell \<times> real cell) list \<Rightarrow> agg_row \<Rightarrow> merged_row" where
  "merge_row metrics r =
     (let (bd, bu) = (case map_of metrics (quadkey r) of
                        None \<Rightarrow> (NaN, NaN)
                      | Some m \<Rightarrow> m)
      in agg_row.extend r
           (merged_row.fields bd bu
              (pct_change (avg_d_kbps_mean r) bd)
              (pct_change (avg_u_kbps_mean r) bu)))"

definition merge_baseline :: "agg_row list \<Rightarrow> (string \<times> real cell \<times> real cell) list \<Rightarrow> merged_row list" where
  "merge_baseline rs metrics = map (merge_row metrics) rs"

text \<open>
  \<^verbatim>\<open>groupby(key)[col].shift(1)\<close>: for each row, the value of the column in the row before
  it within its group, in the order of the frame; missing for the first row of a group.
  The loop carries, for each key, the value of the last row seen with that key.
\<close>

fun groupby_shift_from :: "('r \<Rightarrow> 'k) \<Rightarrow> ('r \<Rightarrow> 'v cell) \<Rightarrow> ('k \<Rightarrow> 'v cell) \<Rightarrow> 'r list \<Rightarrow> 'v cell list" where
  "groupby_shift_from key col seen [] = []"
| "groupby_shift_from key col seen (r # rs) =
     seen (key r) # groupby_shift_from key col (seen(key r := col r)) rs"

definition groupby_shift :: "('r \<Rightarrow> 'k) \<Rightarrow> ('r \<Rightarrow> 'v cell) \<Rightarrow> 'r list \<Rightarrow> 'v cell list" where
  "groupby_shift key col rs = groupby_shift_from key col (\<lambda>k. NaN) rs"

text \<open>\<^verbatim>\<open>year + (quarter - 1) * 0.25\<close>.\<close>

definition time_period_of :: "int cell \<Rightarrow> int cell \<Rightarrow> real cell" where
  "time_period_of y q =
     (case y of NaN \<Rightarrow> NaN
      | Val a \<Rightarrow> (case q of NaN \<Rightarrow> NaN | Val b \<Rightarrow> Val (real_of_int a + real_of_int (b - 1) * 0.25)))"

text \<open>
  The columns computed after the sort. The four \<^verbatim>\<open>prev_\<close> columns are temporary: they
  are dropped once the quarter-over-quarter changes and the flag are computed.
\<close>

definition change_row :: "merged_row \<Rightarrow> real cell \<Rightarrow> real cell \<Rightarrow> int cell \<Rightarrow> int cell \<Rightarrow> comparison_row" where
  "change_row r prev_d_kbps prev_u_kbps prev_year prev_quarter =
     merged_row.extend r
       (comparison_row.fields
          (time_period_of (year r) (quarter r))
          (pct_change (avg_d_kbps_mean r) prev_d_kbps)
          (pct_change (avg_u_kbps_mean r) prev_u_kbps)
          (pd_eq (quarter r) (Val 1) \<and> pd_eq prev_quarter (Val 4) \<and> pd_ne (year r) prev_year)
          (d_kbps_pct_change r)
          (u_kbps_pct_change r))"

definition add_changes :: "merged_row list \<Rightarrow> comparison_row list" where
  "add_changes comparison =
     (let prev_d_kbps = groupby_shift quadkey avg_d_kbps_mean comparison;
          prev_u_kbps = groupby_shift quadkey avg_u_kbps_mean comparison;
          prev_year = groupby_shift quadkey year comparison;
          prev_quarter = groupby_shift quadkey quarter comparison
      in map (\<lambda>(r, pd, pu, py, pq). change_row r pd pu py pq)
             (zip comparison (zip prev_d_kbps (zip prev_u_kbps (zip prev_year prev_quarter)))))"

definition comparison_columns :: "string list" where
  "comparison_columns =
     [''baseline_d_kbps'', ''baseline_u_kbps'', ''d_kbps_pct_change'', ''u_kbps_pct_change'',
      ''time_period'', ''d_kbps_qoq_change'', ''u_kbps_qoq_change'', ''is_year_transition'',
      ''d_kbps_cumulative_change'', ''u_kbps_cumulative_change'']"

text \<open>
  The comparison table, before it is written. The result is an error, or \<open>None\<close> when the
  function logs "No baseline period found" and returns without a table, or the table.

  The baseline period is read from the first row of the frame sorted by year and quarter
  (\<^verbatim>\<open>iloc[0]\<close> raises \<^verbatim>\<open>IndexError\<close> on a frame of no rows); the baseline rows are those
  whose year and quarter compare equal to it.
\<close>

definition baseline_rows :: "agg_row list \<Rightarrow> agg_row \<Rightarrow> agg_row list" where
  "baseline_rows rs first_row =
     filter (\<lambda>r. pd_eq (year r) (year first_row) \<and> pd_eq (quarter r) (quarter first_row)) rs"

definition comparison_table :: "agg_row frame \<Rightarrow> py_error + (comparison_row frame) option" where
  "comparison_table df =
     (if ''year'' \<notin> set (columns df) \<or> ''quarter'' \<notin> set (columns df) then Inl KeyError
      else case sort_values_yq (rows df) of
        [] \<Rightarrow> Inl IndexError
      | first_row # _ \<Rightarrow>
          let baseline = baseline_rows (rows df) first_row in
          if length baseline = 0 then Inr None
          else if ''quadkey'' \<notin> set (columns df) \<or> ''avg_d_kbps_mean'' \<notin> set (columns df)
                  \<or> ''avg_u_kbps_mean'' \<notin> set (columns df) then Inl KeyError
          else
            let comparison = merge_baseline (rows df) (baseline_metrics baseline);
                comparison = sort_values_qyq comparison
            in Inr (Some \<lparr>columns = columns df @ comparison_columns,
                          rows = add_changes comparison\<rparr>))"

text \<open>
  The function itself writes the table to a workbook, on sheets named \<^verbatim>\<open>Comparison\<close>:
  the result is the workbook written, or \<open>None\<close> when nothing is written.
\<close>

definition create_comparison_file ::
  "agg_row frame \<Rightarrow> py_error + ((string \<times> comparison_row frame) list) option" where
  "create_comparison_file df =
     (case comparison_table df of
        Inl e \<Rightarrow> Inl e
      | Inr None \<Rightarrow> Inr None
      | Inr (Some comparison) \<Rightarrow> Inr (Some (create_excel_file comparison ''Comparison'')))"

subsection \<open>Rows for examples\<close>

text \<open>
  An aggregated bin with a quadkey, a year, a quarter and one mean speed (download and
  upload alike), and a frame of such bins with the columns that \<open>aggregate_data\<close> gives
  a frame of tile measurements with the standard columns.
\<close>

definition bin :: "string \<Rightarrow> int cell \<Rightarrow> int cell \<Rightarrow> real cell \<Rightarrow> agg_row" where
  "bin q y qt v =
     \<lparr>quadkey = q, year = y, quarter = qt, data_type = ''mobile'',
      name = NaN, region = NaN, country = NaN, latitude = NaN, longitude = NaN,
      avg_d_kbps_mean = v, avg_d_kbps_min = v, avg_d_kbps_max = v, avg_d_kbps_std = NaN,
      avg_u_kbps_mean = v, avg_u_kbps_min = v, avg_u_kbps_max = v, avg_u_kbps_std = NaN,
      avg_lat_ms_mean = NaN, avg_lat_ms_min = NaN, avg_lat_ms_max = NaN,
      tests_sum = Val 1, devices_sum = Val 1,
      avg_d_mbps_mean = NaN, avg_d_mbps_min = NaN, avg_d_mbps_max = NaN,
      avg_u_mbps_mean = NaN, avg_u_mbps_min = NaN, avg_u_mbps_max = NaN\<rparr>"

definition bins :: "agg_row list \<Rightarrow> agg_row frame" where
  "bins rs =
     \<lparr>columns = [''quadkey'', ''year'', ''quarter'', ''data_type'', ''latitude'', ''longitude'',
                 ''avg_d_kbps_mean'', ''avg_d_kbps_min'', ''avg_d_kbps_max'', ''avg_d_kbps_std'',
                 ''avg_u_kbps_mean'', ''avg_u_kbps_min'', ''avg_u_kbps_max'', ''avg_u_kbps_std'',
                 ''avg_lat_ms_mean'', ''avg_lat_ms_min'', ''avg_lat_ms_max'',
                 ''tests_sum'', ''devices_sum''],
      rows = rs\<rparr>"



section \<open>Properties of the quadkey decoder\<close>


lemma py_int_isl: "isl (py_int c) \<longleftrightarrow> \<not> is_decimal c"
  by (simp add: py_int_def)










section \<open>Properties of the workbook writer\<close>

lemma chunks_take:
  "concat (map (\<lambda>i. take (min ((i + 1) * m) (length xs) - i * m) (drop (i * m) xs)) [0..<j])
     = take (j * m) xs"
proof (induction j)
  case 0
  then show ?case by simp
next
  case (Suc j)
  show ?case
  proof (cases "j * m \<le> length xs")
    case True
    have "take (j * m) xs @ take (min ((j + 1) * m) (length xs) - j * m) (drop (j * m) xs)
          = take (j * m + (min ((j + 1) * m) (length xs) - j * m)) xs"
      by (simp add: take_add)
    also have "\<dots> = take (Suc j * m) xs"
      using True by (cases "(j + 1) * m \<le> length xs") (simp_all add: min_def ac_simps)
    finally show ?thesis using Suc by simp
  next
    case False
    then show ?thesis using Suc by simp
  qed
qed

lemma nat_of_digits_py_str_nat: "nat_of_digits (py_str_nat n) = n"
proof (induction n rule: py_str_nat.induct)
  case (1 n)
  show ?case
  proof (cases "n < 10")
    case True
    then have "(48 + n) mod 256 = 48 + n" by simp
    with True show ?thesis
      by (subst py_str_nat.simps) (simp add: nat_of_digits_def)
  next
    case False
    have "n mod 10 < 10" by simp
    then have "(48 + n mod 10) mod 256 = 48 + n mod 10" by simp
    with False 1 show ?thesis
      by (subst py_str_nat.simps) (simp add: nat_of_digits_def)
  qed
qed

lemma py_str_nat_inj: "py_str_nat a = py_str_nat b \<Longrightarrow> a = b"
  by (metis nat_of_digits_py_str_nat)

lemma py_str_inj_nonneg: "0 \<le> a \<Longrightarrow> 0 \<le> b \<Longrightarrow> py_str a = py_str b \<Longrightarrow> a = b"
  by (auto simp: py_str_def dest: py_str_nat_inj)

lemma num_chunks_nat:
  assumes "0 < m"
  shows "nat ((int n - 1) div int m + 1) = num_sheets m n"
proof (cases "n = 0")
  case True
  with assms show ?thesis
    by (simp add: div_eq_minus1 num_sheets_def)
next
  case False
  then have e: "int n - 1 = int (n - 1)" by simp
  have "(int n - 1) div int m + 1 = int ((n - 1) div m + 1)"
    unfolding e by (simp only: of_nat_add of_nat_div of_nat_1)
  then show ?thesis using False
    by (simp only: nat_int num_sheets_def if_False)
qed

lemma write_sheets_nat:
  assumes "0 < m"
  shows "map (rows \<circ> snd) (write_sheets (int m) df sheet_name) =
     map (\<lambda>i. take (min ((i + 1) * m) (length (rows df)) - i * m) (drop (i * m) (rows df)))
       [0..<num_sheets m (length (rows df))]"
proof -
  have a: "nat (int i * int m) = i * m" for i
    by (simp add: nat_mult_distrib)
  have c: "(int i + 1) * int m = int ((i + 1) * m)" for i
    by (simp add: algebra_simps)
  have "min ((int i + 1) * int m) (int (length (rows df))) = int (min ((i + 1) * m) (length (rows df)))" for i
    unfolding c by (rule of_nat_min [symmetric])
  then have b: "nat (min ((int i + 1) * int m) (int (length (rows df)))) = min ((i + 1) * m) (length (rows df))" for i
    by (simp only: nat_int)
  show ?thesis
    by (simp add: write_sheets_def Let_def py_range_def iloc_slice_def num_chunks_nat [OF assms]
        comp_def a b del: of_nat_mult of_nat_add of_nat_Suc)
qed

lemma num_sheets_covers: "0 < m \<Longrightarrow> n \<le> num_sheets m n * m"
proof (cases "n = 0")
  case True
  then show ?thesis by simp
next
  case False
  assume "0 < m"
  then have "n - 1 < m + (n - 1) div m * m"
    by (rule dividend_less_div_times)
  with False show ?thesis
    by (simp add: num_sheets_def)
qed

lemma num_sheets_many: "0 < m \<Longrightarrow> m < n \<Longrightarrow> 1 < num_sheets m n"
proof -
  assume m: "0 < m" and "m < n"
  then have "m \<le> n - 1" by simp
  then have "m div m \<le> (n - 1) div m" by (rule div_le_mono)
  with m \<open>m < n\<close> show ?thesis by (simp add: num_sheets_def)
qed

lemma write_sheets_concat:
  assumes "0 < m"
  shows "concat (map (rows \<circ> snd) (write_sheets (int m) df sheet_name)) = rows df"
proof -
  have "concat (map (rows \<circ> snd) (write_sheets (int m) df sheet_name))
        = take (num_sheets m (length (rows df)) * m) (rows df)"
    unfolding write_sheets_nat [OF assms] by (rule chunks_take)
  with num_sheets_covers [OF assms, of "length (rows df)"] show ?thesis
    by simp
qed

lemma write_sheets_chunk_size:
  assumes "0 < m" and "s \<in> set (write_sheets (int m) df sheet_name)"
  shows "length (rows (snd s)) \<le> m"
proof -
  from assms(2) have "(rows \<circ> snd) s \<in> set (map (rows \<circ> snd) (write_sheets (int m) df sheet_name))"
    unfolding set_map by (rule imageI)
  then obtain i where
    "rows (snd s) = take (min ((i + 1) * m) (length (rows df)) - i * m) (drop (i * m) (rows df))"
    unfolding write_sheets_nat [OF assms(1)] by auto
  then show ?thesis by simp
qed

lemma length_write_sheets:
  assumes "0 < m"
  shows "length (write_sheets (int m) df sheet_name) = num_sheets m (length (rows df))"
  by (simp add: write_sheets_def py_range_def Let_def num_chunks_nat [OF assms])

lemma write_sheets_names:
  assumes "0 < m" and "m < length (rows df)"
  shows "map fst (write_sheets (int m) df sheet_name) =
         map (\<lambda>i. sheet_name @ ''_'' @ py_str (int i + 1)) [0..<num_sheets m (length (rows df))]"
proof -
  from num_sheets_many [OF assms] num_chunks_nat [OF assms(1), of "length (rows df)"]
  have "1 < (int (length (rows df)) - 1) div int m + 1"
    by linarith
  then show ?thesis
    by (simp add: write_sheets_def py_range_def Let_def comp_def num_chunks_nat [OF assms(1)])
qed

lemma write_sheets_names_distinct:
  assumes "0 < m" and "m < length (rows df)"
  shows "distinct (map fst (write_sheets (int m) df sheet_name))"
proof -
  have "inj_on (\<lambda>i. sheet_name @ ''_'' @ py_str (int i + 1)) (set [0..<num_sheets m (length (rows df))])"
    by (rule inj_onI) (auto dest!: py_str_inj_nonneg [rotated 2])
  then show ?thesis
    unfolding write_sheets_names [OF assms] by (simp add: distinct_map)
qed

text \<open>
  Claim C9. When the table has more rows than the row limit of 900000, it is written to
  several sheets with distinct names; the chunks on the sheets, in order, make up the
  rows of the table (no row is dropped or written twice), and no sheet holds more rows
  than the limit.
\<close>

theorem create_excel_file_partition:
  assumes "excel_row_limit < int (length (rows df))"
  shows "concat (map (rows \<circ> snd) (create_excel_file df sheet_name)) = rows df \<and>
         (\<forall>s\<in>set (create_excel_file df sheet_name). int (length (rows (snd s))) \<le> excel_row_limit) \<and>
         1 < length (create_excel_file df sheet_name) \<and>
         distinct (map fst (create_excel_file df sheet_name))"
proof -
  have m: "excel_row_limit = int 900000" "(0::nat) < 900000"
    by (simp_all add: excel_row_limit_def)
  from assms have big: "900000 < length (rows df)"
    by (simp add: excel_row_limit_def)
  show ?thesis
    unfolding create_excel_file_def m(1)
    using write_sheets_concat [OF m(2), of df sheet_name]
      write_sheets_chunk_size [OF m(2), of _ df sheet_name]
      length_write_sheets [OF m(2), of df sheet_name]
      num_sheets_many [OF m(2) big]
      write_sheets_names_distinct [OF m(2) big, of sheet_name]
    by (auto simp del: of_nat_numeral)
qed

theorem create_excel_file_partition_witness:
  "excel_row_limit < int (length (rows (bins (replicate 900001 (bin ''0'' (Val 2024) (Val 1) (Val 5)))))) \<and>
   concat (map (rows \<circ> snd)
     (create_excel_file (bins (replicate 900001 (bin ''0'' (Val 2024) (Val 1) (Val 5)))) ''Data''))
   = replicate 900001 (bin ''0'' (Val 2024) (Val 1) (Val 5)) \<and>
   1 < length (create_excel_file (bins (replicate 900001 (bin ''0'' (Val 2024) (Val 1) (Val 5)))) ''Data'') \<and>
   distinct (map fst (create_excel_file (bins (replicate 900001 (bin ''0'' (Val 2024) (Val 1) (Val 5)))) ''Data''))"
proof -
  have h: "excel_row_limit < int (length (rows (bins (replicate 900001 (bin ''0'' (Val 2024) (Val 1) (Val 5))))))"
    by (simp add: excel_row_limit_def bins_def)
  have r: "rows (bins (replicate 900001 (bin ''0'' (Val 2024) (Val 1) (Val 5))))
           = replicate 900001 (bin ''0'' (Val 2024) (Val 1) (Val 5))"
    by (simp add: bins_def)
  from create_excel_file_partition [OF h, of "''Data''"] h show ?thesis
    unfolding r by blast
qed

section \<open>Properties of the comparison with the baseline\<close>

lemma insort_key_map:
  "insort_key f (h x) (map h ys) = map h (insort_key (\<lambda>a. f (h a)) x ys)"
  by (induction ys) simp_all

lemma sort_key_map: "sort_key f (map h xs) = map h (sort_key (\<lambda>a. f (h a)) xs)"
  by (induction xs) (simp_all add: insort_key_map)

lemma sorted_map_fst:
  "sorted (map (\<lambda>r. (f r, g r)) xs) \<Longrightarrow> sorted (map f xs)"
  by (induction xs) (auto simp: less_eq_prod_def)

lemma groupby_shift_from_length [simp]:
  "length (groupby_shift_from key col seen rs) = length rs"
  by (induction rs arbitrary: seen) simp_all

lemma groupby_shift_length [simp]: "length (groupby_shift key col rs) = length rs"
  by (simp add: groupby_shift_def)

lemma groupby_shift_from_sorted:
  fixes key :: "'r \<Rightarrow> 'k::linorder"
  assumes "sorted (map key rs)" and "i < length rs"
  shows "groupby_shift_from key col seen rs ! i =
         (if 0 < i \<and> key (rs ! (i - 1)) = key (rs ! i) then col (rs ! (i - 1))
          else seen (key (rs ! i)))"
  using assms
proof (induction rs arbitrary: i seen)
  case Nil
  then show ?case by simp
next
  case (Cons r rs)
  show ?case
  proof (cases i)
    case 0
    then show ?thesis by simp
  next
    case (Suc j)
    with Cons.prems have j: "j < length rs" and srt: "sorted (map key rs)"
      and le: "\<forall>x\<in>set rs. key r \<le> key x"
      by auto
    have step: "groupby_shift_from key col seen (r # rs) ! i
                = groupby_shift_from key col (seen(key r := col r)) rs ! j"
      using Suc by simp
    note IH = Cons.IH [OF srt j, of "seen(key r := col r)"]
    show ?thesis
    proof (cases j)
      case 0
      show ?thesis
        unfolding step IH using 0 \<open>i = Suc j\<close> by auto
    next
      case (Suc k)
      show ?thesis
      proof (cases "key (rs ! k) = key (rs ! j)")
        case True
        show ?thesis
          unfolding step IH using True Suc \<open>i = Suc j\<close> by simp
      next
        case False
        from srt j Suc have "key (rs ! k) \<le> key (rs ! j)"
          by (simp add: sorted_iff_nth_mono)
        with False have "key (rs ! k) < key (rs ! j)" by simp
        moreover from le j Suc have "key r \<le> key (rs ! k)" by simp
        ultimately have "key r \<noteq> key (rs ! j)" by auto
        then show ?thesis
          unfolding step IH using False Suc \<open>i = Suc j\<close> by simp
      qed
    qed
  qed
qed

lemma groupby_shift_sorted:
  fixes key :: "'r \<Rightarrow> 'k::linorder"
  assumes "sorted (map key rs)" and "i < length rs"
  shows "groupby_shift key col rs ! i =
         (if 0 < i \<and> key (rs ! (i - 1)) = key (rs ! i) then col (rs ! (i - 1)) else NaN)"
  unfolding groupby_shift_def groupby_shift_from_sorted [OF assms] by simp

lemma merge_row_simps [simp]:
  "agg_row.truncate (merge_row m r) = r"
  "quadkey (merge_row m r) = quadkey r"
  "year (merge_row m r) = year r"
  "quarter (merge_row m r) = quarter r"
  "avg_d_kbps_mean (merge_row m r) = avg_d_kbps_mean r"
  "avg_u_kbps_mean (merge_row m r) = avg_u_kbps_mean r"
  "d_kbps_pct_change (merge_row m r) = pct_change (avg_d_kbps_mean r) (baseline_d_kbps (merge_row m r))"
  "u_kbps_pct_change (merge_row m r) = pct_change (avg_u_kbps_mean r) (baseline_u_kbps (merge_row m r))"
  by (simp_all add: merge_row_def agg_row.defs merged_row.defs split: prod.splits)

lemma change_row_simps [simp]:
  "agg_row.truncate (change_row r pd pu py pq) = agg_row.truncate r"
  "quadkey (change_row r pd pu py pq) = quadkey r"
  "year (change_row r pd pu py pq) = year r"
  "quarter (change_row r pd pu py pq) = quarter r"
  "avg_d_kbps_mean (change_row r pd pu py pq) = avg_d_kbps_mean r"
  "avg_u_kbps_mean (change_row r pd pu py pq) = avg_u_kbps_mean r"
  "baseline_d_kbps (change_row r pd pu py pq) = baseline_d_kbps r"
  "baseline_u_kbps (change_row r pd pu py pq) = baseline_u_kbps r"
  "d_kbps_pct_change (change_row r pd pu py pq) = d_kbps_pct_change r"
  "u_kbps_pct_change (change_row r pd pu py pq) = u_kbps_pct_change r"
  "d_kbps_cumulative_change (change_row r pd pu py pq) = d_kbps_pct_change r"
  "u_kbps_cumulative_change (change_row r pd pu py pq) = u_kbps_pct_change r"
  "d_kbps_qoq_change (change_row r pd pu py pq) = pct_change (avg_d_kbps_mean r) pd"
  "u_kbps_qoq_change (change_row r pd pu py pq) = pct_change (avg_u_kbps_mean r) pu"
  "is_year_transition (change_row r pd pu py pq) \<longleftrightarrow>
     pd_eq (quarter r) (Val 1) \<and> pd_eq pq (Val 4) \<and> pd_ne (year r) py"
  by (simp_all add: change_row_def agg_row.defs merged_row.defs comparison_row.defs)

lemma sort_merge_baseline:
  "sort_values_qyq (merge_baseline rs m) = merge_baseline (sort_values_qyq rs) m"
  by (simp add: sort_values_qyq_def merge_baseline_def sort_key_map)

lemma length_add_changes [simp]: "length (add_changes c) = length c"
  by (simp add: add_changes_def)

lemma add_changes_nth:
  "i < length c \<Longrightarrow> add_changes c ! i =
     change_row (c ! i) (groupby_shift quadkey avg_d_kbps_mean c ! i)
       (groupby_shift quadkey avg_u_kbps_mean c ! i)
       (groupby_shift quadkey year c ! i) (groupby_shift quadkey quarter c ! i)"
  by (simp add: add_changes_def)

lemma comparison_table_rows:
  assumes "comparison_table df = Inr (Some out)"
  obtains m where "rows out = add_changes (merge_baseline (sort_values_qyq (rows df)) m)"
  using assms
  by (auto simp: comparison_table_def Let_def sort_merge_baseline split: if_splits list.splits)

lemma sorted_sort_values_qyq:
  "sorted (map (\<lambda>r. (quadkey r, year r, quarter r)) (sort_values_qyq rs))"
  by (simp add: sort_values_qyq_def)

lemma pct_change_NaN [simp]: "pct_change v NaN = FNaN"
  by (simp add: pct_change_def split: cell.splits)

lemma pd_eq_Val [simp]: "pd_eq x (Val v) \<longleftrightarrow> x = Val v"
  by (auto simp: pd_eq_def split: cell.splits)

lemma pd_eq_NaN [simp]: "\<not> pd_eq NaN y"
  by (simp add: pd_eq_def)

lemma add_changes_sorted_nth:
  assumes "sorted (map quadkey c)" and "i < length c"
  shows "add_changes c ! i =
     (if 0 < i \<and> quadkey (c ! (i - 1)) = quadkey (c ! i)
      then change_row (c ! i) (avg_d_kbps_mean (c ! (i - 1))) (avg_u_kbps_mean (c ! (i - 1)))
             (year (c ! (i - 1))) (quarter (c ! (i - 1)))
      else change_row (c ! i) NaN NaN NaN NaN)"
  using assms by (simp add: add_changes_nth groupby_shift_sorted)

lemma sorted_merge_sorted:
  "sorted (map (\<lambda>r. (quadkey r, year r, quarter r)) (merge_baseline (sort_values_qyq rs) m))"
proof -
  have "map (\<lambda>r. (quadkey r, year r, quarter r)) (merge_baseline (sort_values_qyq rs) m)
        = map (\<lambda>r. (quadkey r, year r, quarter r)) (sort_values_qyq rs)"
    by (simp add: merge_baseline_def)
  then show ?thesis
    by (simp only: sorted_sort_values_qyq)
qed

lemma add_changes_keys:
  assumes "sorted (map quadkey c)"
  shows "map (\<lambda>r. (quadkey r, year r, quarter r)) (add_changes c)
       = map (\<lambda>r. (quadkey r, year r, quarter r)) c"
  by (rule nth_equalityI) (simp_all add: add_changes_sorted_nth [OF assms])

lemma add_changes_truncate:
  assumes "sorted (map quadkey c)"
  shows "map agg_row.truncate (add_changes c) = map agg_row.truncate c"
  by (rule nth_equalityI) (simp_all add: add_changes_sorted_nth [OF assms])

lemma comparison_table_sorted:
  assumes "comparison_table df = Inr (Some out)"
  obtains c where "rows out = add_changes c"
    and "sorted (map (\<lambda>r. (quadkey r, year r, quarter r)) c)"
    and "map agg_row.truncate c = sort_values_qyq (rows df)"
    and "\<forall>r\<in>set c. d_kbps_pct_change r = pct_change (avg_d_kbps_mean r) (baseline_d_kbps r)
                  \<and> u_kbps_pct_change r = pct_change (avg_u_kbps_mean r) (baseline_u_kbps r)"
proof -
  from assms obtain m where "rows out = add_changes (merge_baseline (sort_values_qyq (rows df)) m)"
    by (rule comparison_table_rows)
  moreover have "map agg_row.truncate (merge_baseline (sort_values_qyq (rows df)) m) = sort_values_qyq (rows df)"
    by (simp add: merge_baseline_def comp_def)
  moreover have "\<forall>r\<in>set (merge_baseline (sort_values_qyq (rows df)) m).
      d_kbps_pct_change r = pct_change (avg_d_kbps_mean r) (baseline_d_kbps r)
    \<and> u_kbps_pct_change r = pct_change (avg_u_kbps_mean r) (baseline_u_kbps r)"
    by (auto simp: merge_baseline_def)
  ultimately show ?thesis
    using sorted_merge_sorted [of "rows df" m] that by blast
qed

text \<open>
  Claim C4. The rows of the comparison table are the input rows in the stable order of
  \<^verbatim>\<open>sort_values(['quadkey', 'year', 'quarter'])\<close>, none added and none dropped. The
  quarter-over-quarter change of a row is the percent change from the row immediately
  before it when that row has the same quadkey, whatever its period is, and it is missing
  when there is no such row.
\<close>

theorem qoq_change_uses_preceding_row:
  assumes "comparison_table df = Inr (Some out)"
  shows "map agg_row.truncate (rows out) = sort_values_qyq (rows df) \<and>
         sorted (map (\<lambda>r. (quadkey r, year r, quarter r)) (rows out)) \<and>
         (\<forall>i<length (rows out).
            d_kbps_qoq_change (rows out ! i) =
              (if 0 < i \<and> quadkey (rows out ! (i - 1)) = quadkey (rows out ! i)
               then pct_change (avg_d_kbps_mean (rows out ! i)) (avg_d_kbps_mean (rows out ! (i - 1)))
               else FNaN) \<and>
            u_kbps_qoq_change (rows out ! i) =
              (if 0 < i \<and> quadkey (rows out ! (i - 1)) = quadkey (rows out ! i)
               then pct_change (avg_u_kbps_mean (rows out ! i)) (avg_u_kbps_mean (rows out ! (i - 1)))
               else FNaN))"
proof -
  from assms obtain c where out: "rows out = add_changes c"
    and srt: "sorted (map (\<lambda>r. (quadkey r, year r, quarter r)) c)"
    and tr: "map agg_row.truncate c = sort_values_qyq (rows df)"
    by (rule comparison_table_sorted)
  from srt have q: "sorted (map quadkey c)"
    by (rule sorted_map_fst)
  have "map agg_row.truncate (rows out) = sort_values_qyq (rows df)"
    by (simp only: out add_changes_truncate [OF q] tr)
  moreover have "sorted (map (\<lambda>r. (quadkey r, year r, quarter r)) (rows out))"
    by (simp only: out add_changes_keys [OF q] srt)
  moreover have "d_kbps_qoq_change (rows out ! i) =
              (if 0 < i \<and> quadkey (rows out ! (i - 1)) = quadkey (rows out ! i)
               then pct_change (avg_d_kbps_mean (rows out ! i)) (avg_d_kbps_mean (rows out ! (i - 1)))
               else FNaN) \<and>
            u_kbps_qoq_change (rows out ! i) =
              (if 0 < i \<and> quadkey (rows out ! (i - 1)) = quadkey (rows out ! i)
               then pct_change (avg_u_kbps_mean (rows out ! i)) (avg_u_kbps_mean (rows out ! (i - 1)))
               else FNaN)" if "i < length (rows out)" for i
  proof -
    from that have i: "i < length c" "i - 1 < length c"
      by (simp_all add: out)
    show ?thesis
      unfolding out add_changes_sorted_nth [OF q i(1)] add_changes_sorted_nth [OF q i(2)]
      by simp
  qed
  ultimately show ?thesis by blast
qed

lemmas eval_defs =
  comparison_table_def bins_def bin_def sort_values_yq_def sort_values_qyq_def baseline_rows_def
  less_eq_cell_def less_cell_def

lemma comparison_table_ok:
  assumes "''year'' \<in> set (columns df)" "''quarter'' \<in> set (columns df)"
    "''quadkey'' \<in> set (columns df)" "''avg_d_kbps_mean'' \<in> set (columns df)"
    "''avg_u_kbps_mean'' \<in> set (columns df)"
    and "sort_values_yq (rows df) = first_row # rest"
    and "year first_row \<noteq> NaN" "quarter first_row \<noteq> NaN"
  shows "\<exists>out. comparison_table df = Inr (Some out)"
proof -
  have "first_row \<in> set (sort_values_yq (rows df))"
    using assms(6) by simp
  then have "first_row \<in> set (rows df)"
    by (simp add: sort_values_yq_def)
  moreover have "pd_eq (year first_row) (year first_row) \<and> pd_eq (quarter first_row) (quarter first_row)"
    using assms(7,8) by (cases "year first_row"; cases "quarter first_row") simp_all
  ultimately have "baseline_rows (rows df) first_row \<noteq> []"
    by (auto simp: baseline_rows_def filter_empty_conv)
  with assms show ?thesis
    by (simp add: comparison_table_def Let_def)
qed

text \<open>
  The gap fixture: quadkey 7 with 100 in 2024 Q1 and 80 in 2024 Q3. The row before the
  Q3 row is the Q1 row, and its change is -20.
\<close>

theorem qoq_change_uses_preceding_row_witness:
  "map_sum id (map_option (map agg_row.truncate \<circ> rows))
     (comparison_table (bins [bin ''7'' (Val 2024) (Val 3) (Val 80), bin ''7'' (Val 2024) (Val 1) (Val 100)]))
     = Inr (Some [bin ''7'' (Val 2024) (Val 1) (Val 100), bin ''7'' (Val 2024) (Val 3) (Val 80)]) \<and>
   map_sum id (map_option (map d_kbps_qoq_change \<circ> rows))
     (comparison_table (bins [bin ''7'' (Val 2024) (Val 3) (Val 80), bin ''7'' (Val 2024) (Val 1) (Val 100)]))
     = Inr (Some [FNaN, Fin (- 20)]) \<and>
   map_sum id (map_option (map u_kbps_qoq_change \<circ> rows))
     (comparison_table (bins [bin ''7'' (Val 2024) (Val 3) (Val 80), bin ''7'' (Val 2024) (Val 1) (Val 100)]))
     = Inr (Some [FNaN, Fin (- 20)])"
proof -
  let ?df = "bins [bin ''7'' (Val 2024) (Val 3) (Val 80), bin ''7'' (Val 2024) (Val 1) (Val 100)]"
  have "sort_values_yq (rows ?df) = [bin ''7'' (Val 2024) (Val 1) (Val 100), bin ''7'' (Val 2024) (Val 3) (Val 80)]"
    by (simp add: eval_defs)
  then have "\<exists>out. comparison_table ?df = Inr (Some out)"
    by (rule comparison_table_ok [rotated 5]) (simp_all add: bins_def bin_def)
  then obtain out where out: "comparison_table ?df = Inr (Some out)" ..
  have s: "sort_values_qyq (rows ?df) = [bin ''7'' (Val 2024) (Val 1) (Val 100), bin ''7'' (Val 2024) (Val 3) (Val 80)]"
    by (simp add: eval_defs)
  note t = qoq_change_uses_preceding_row [OF out, unfolded s]
  from t have tr: "map agg_row.truncate (rows out) = [bin ''7'' (Val 2024) (Val 1) (Val 100), bin ''7'' (Val 2024) (Val 3) (Val 80)]"
    by blast
  then obtain a b where ab: "rows out = [a, b]"
    and a: "agg_row.truncate a = bin ''7'' (Val 2024) (Val 1) (Val 100)"
    and b: "agg_row.truncate b = bin ''7'' (Val 2024) (Val 3) (Val 80)"
    by auto
  have fa: "quadkey a = ''7''" "avg_d_kbps_mean a = Val 100" "avg_u_kbps_mean a = Val 100"
    using arg_cong [OF a, of quadkey] arg_cong [OF a, of avg_d_kbps_mean] arg_cong [OF a, of avg_u_kbps_mean]
    by (simp_all add: agg_row.defs bin_def)
  have fb: "quadkey b = ''7''" "avg_d_kbps_mean b = Val 80" "avg_u_kbps_mean b = Val 80"
    using arg_cong [OF b, of quadkey] arg_cong [OF b, of avg_d_kbps_mean] arg_cong [OF b, of avg_u_kbps_mean]
    by (simp_all add: agg_row.defs bin_def)
  from t have q: "\<forall>i<length (rows out).
            d_kbps_qoq_change (rows out ! i) =
              (if 0 < i \<and> quadkey (rows out ! (i - 1)) = quadkey (rows out ! i)
               then pct_change (avg_d_kbps_mean (rows out ! i)) (avg_d_kbps_mean (rows out ! (i - 1)))
               else FNaN) \<and>
            u_kbps_qoq_change (rows out ! i) =
              (if 0 < i \<and> quadkey (rows out ! (i - 1)) = quadkey (rows out ! i)
               then pct_change (avg_u_kbps_mean (rows out ! i)) (avg_u_kbps_mean (rows out ! (i - 1)))
               else FNaN)"
    by blast
  from q [rule_format, of 0] q [rule_format, of 1]
  have "map d_kbps_qoq_change (rows out) = [FNaN, Fin (- 20)]"
       "map u_kbps_qoq_change (rows out) = [FNaN, Fin (- 20)]"
    by (simp_all add: ab fa fb pct_change_def)
  with tr show ?thesis
    by (simp add: out)
qed

lemma add_changes_fields:
  assumes "sorted (map quadkey c)" and "j < length c"
  shows "quadkey (add_changes c ! j) = quadkey (c ! j)"
    "year (add_changes c ! j) = year (c ! j)"
    "quarter (add_changes c ! j) = quarter (c ! j)"
    "avg_d_kbps_mean (add_changes c ! j) = avg_d_kbps_mean (c ! j)"
    "avg_u_kbps_mean (add_changes c ! j) = avg_u_kbps_mean (c ! j)"
    "baseline_d_kbps (add_changes c ! j) = baseline_d_kbps (c ! j)"
    "baseline_u_kbps (add_changes c ! j) = baseline_u_kbps (c ! j)"
    "d_kbps_pct_change (add_changes c ! j) = d_kbps_pct_change (c ! j)"
    "u_kbps_pct_change (add_changes c ! j) = u_kbps_pct_change (c ! j)"
    "d_kbps_cumulative_change (add_changes c ! j) = d_kbps_pct_change (c ! j)"
    "u_kbps_cumulative_change (add_changes c ! j) = u_kbps_pct_change (c ! j)"
  by (simp_all add: add_changes_sorted_nth [OF assms])

lemma pd_ne_iff: "pd_ne a b \<longleftrightarrow> a \<noteq> b \<or> a = NaN"
  by (cases a; cases b) (simp_all add: pd_ne_def pd_eq_def)

text \<open>
  Claim C5. A row is flagged as a year transition if and only if its quarter is 1, the
  row before it in the sorted table has the same quadkey and quarter 4, and the years
  of the two rows differ.
\<close>

theorem year_transition_flag:
  assumes "comparison_table df = Inr (Some out)"
  shows "map agg_row.truncate (rows out) = sort_values_qyq (rows df) \<and>
         (\<forall>i<length (rows out).
           (is_year_transition (rows out ! i) \<longleftrightarrow>
              quarter (rows out ! i) = Val 1 \<and> 0 < i \<and>
              quadkey (rows out ! (i - 1)) = quadkey (rows out ! i) \<and>
              quarter (rows out ! (i - 1)) = Val 4 \<and>
              year (rows out ! (i - 1)) \<noteq> year (rows out ! i)) \<and>
           d_kbps_qoq_change (rows out ! i) =
              (if 0 < i \<and> quadkey (rows out ! (i - 1)) = quadkey (rows out ! i)
               then pct_change (avg_d_kbps_mean (rows out ! i)) (avg_d_kbps_mean (rows out ! (i - 1)))
               else FNaN))"
proof (intro conjI allI impI)
  from assms obtain c where out: "rows out = add_changes c"
    and srt: "sorted (map (\<lambda>r. (quadkey r, year r, quarter r)) c)"
    and tr: "map agg_row.truncate c = sort_values_qyq (rows df)"
    by (rule comparison_table_sorted)
  from srt have q: "sorted (map quadkey c)"
    by (rule sorted_map_fst)
  show "map agg_row.truncate (rows out) = sort_values_qyq (rows df)"
    by (simp only: out add_changes_truncate [OF q] tr)
  fix i
  assume "i < length (rows out)"
  from \<open>i < length (rows out)\<close> have i: "i < length c" "i - 1 < length c"
    by (simp_all add: out)
  note f = add_changes_fields [OF q i(1)] add_changes_fields [OF q i(2)]
  have qoq: "d_kbps_qoq_change (rows out ! i) =
              (if 0 < i \<and> quadkey (rows out ! (i - 1)) = quadkey (rows out ! i)
               then pct_change (avg_d_kbps_mean (rows out ! i)) (avg_d_kbps_mean (rows out ! (i - 1)))
               else FNaN)"
    unfolding out f by (simp add: add_changes_sorted_nth [OF q i(1)])
  have flag: "is_year_transition (rows out ! i) \<longleftrightarrow>
              quarter (rows out ! i) = Val 1 \<and> 0 < i \<and>
              quadkey (rows out ! (i - 1)) = quadkey (rows out ! i) \<and>
              quarter (rows out ! (i - 1)) = Val 4 \<and>
              year (rows out ! (i - 1)) \<noteq> year (rows out ! i)"
  proof (cases "0 < i \<and> quadkey (c ! (i - 1)) = quadkey (c ! i)")
    case False
    then show ?thesis
      unfolding out f by (auto simp: add_changes_sorted_nth [OF q i(1)])
  next
    case True
    from srt i True have "map (\<lambda>r. (quadkey r, year r, quarter r)) c ! (i - 1)
        \<le> map (\<lambda>r. (quadkey r, year r, quarter r)) c ! i"
      by (intro sorted_nth_mono) simp_all
    with i True have le: "(year (c ! (i - 1)), quarter (c ! (i - 1))) \<le> (year (c ! i), quarter (c ! i))"
      by (simp add: less_eq_prod_def)
    have "\<not> (year (c ! i) = NaN \<and> year (c ! (i - 1)) = NaN \<and>
              quarter (c ! i) = Val 1 \<and> quarter (c ! (i - 1)) = Val 4)"
      using le by (auto simp: less_eq_prod_def less_eq_cell_def less_cell_def)
    with True show ?thesis
      unfolding out f by (auto simp: add_changes_sorted_nth [OF q i(1)] pd_ne_iff)
  qed
  from flag show "is_year_transition (rows out ! i) \<longleftrightarrow>
              quarter (rows out ! i) = Val 1 \<and> 0 < i \<and>
              quadkey (rows out ! (i - 1)) = quadkey (rows out ! i) \<and>
              quarter (rows out ! (i - 1)) = Val 4 \<and>
              year (rows out ! (i - 1)) \<noteq> year (rows out ! i)" .
  from qoq show "d_kbps_qoq_change (rows out ! i) =
              (if 0 < i \<and> quadkey (rows out ! (i - 1)) = quadkey (rows out ! i)
               then pct_change (avg_d_kbps_mean (rows out ! i)) (avg_d_kbps_mean (rows out ! (i - 1)))
               else FNaN)" .
qed

lemmas eval_table_defs =
  eval_defs Let_def merge_baseline_def merge_row_def baseline_metrics_def agg_mean_def
  add_changes_def groupby_shift_def change_row_def pct_change_def pd_eq_def
  agg_row.defs merged_row.defs comparison_row.defs

lemma comparison_table_no_error:
  assumes "set [''quadkey'', ''year'', ''quarter'', ''avg_d_kbps_mean'', ''avg_u_kbps_mean''] \<subseteq> set (columns df)"
    and "rows df \<noteq> []"
  shows "\<not> isl (comparison_table df)"
proof -
  from assms(2) have "length (sort_values_yq (rows df)) \<noteq> 0"
    by (simp add: sort_values_yq_def)
  then have "sort_values_yq (rows df) \<noteq> []"
    by (simp only: length_0_conv not_False_eq_True)
  then obtain first_row rest where "sort_values_yq (rows df) = first_row # rest"
    by (cases "sort_values_yq (rows df)") auto
  with assms(1) show ?thesis
    by (simp add: comparison_table_def Let_def)
qed

text \<open>
  Claim C3, as the specification states it, fails on the code: nothing guards the
  division, so a baseline of zero under a positive value gives an infinite percent
  change, not a missing one.
\<close>

theorem zero_baseline_gives_infinity:
  "map_sum id (map_option (map baseline_d_kbps \<circ> rows))
     (comparison_table (bins [bin ''7'' (Val 2024) (Val 1) (Val 0), bin ''7'' (Val 2024) (Val 2) (Val 100)]))
     = Inr (Some [Val 0, Val 0]) \<and>
   map_sum id (map_option (map avg_d_kbps_mean \<circ> rows))
     (comparison_table (bins [bin ''7'' (Val 2024) (Val 1) (Val 0), bin ''7'' (Val 2024) (Val 2) (Val 100)]))
     = Inr (Some [Val 0, Val 100]) \<and>
   map_sum id (map_option (map d_kbps_pct_change \<circ> rows))
     (comparison_table (bins [bin ''7'' (Val 2024) (Val 1) (Val 0), bin ''7'' (Val 2024) (Val 2) (Val 100)]))
     = Inr (Some [FNaN, PInf])"
  by (simp add: eval_table_defs)

text \<open>
  Claim C3, amended. The comparison raises no error on a frame that has rows and the
  columns it reads. In every row of the table the percent changes from the baseline are
  the float result of \<^verbatim>\<open>(value - baseline) / baseline * 100\<close>, and the cumulative changes
  are copies of them: the quotient itself when the baseline is present and not zero,
  missing when the baseline or the value is missing, and for a baseline of zero plus or
  minus infinity by the sign of the value, or missing when the value is zero too.
\<close>

theorem pct_change_from_baseline:
  "(set [''quadkey'', ''year'', ''quarter'', ''avg_d_kbps_mean'', ''avg_u_kbps_mean''] \<subseteq> set (columns df)
      \<and> rows df \<noteq> [] \<longrightarrow> \<not> isl (comparison_table df)) \<and>
   (\<forall>out r. comparison_table df = Inr (Some out) \<and> r \<in> set (rows out) \<longrightarrow>
      d_kbps_pct_change r = pct_change (avg_d_kbps_mean r) (baseline_d_kbps r) \<and>
      u_kbps_pct_change r = pct_change (avg_u_kbps_mean r) (baseline_u_kbps r) \<and>
      d_kbps_cumulative_change r = d_kbps_pct_change r \<and>
      u_kbps_cumulative_change r = u_kbps_pct_change r) \<and>
   (\<forall>v b. b \<noteq> 0 \<longrightarrow> pct_change (Val v) (Val b) = Fin ((v - b) / b * 100)) \<and>
   (\<forall>v. pct_change v NaN = FNaN) \<and> (\<forall>b. pct_change NaN b = FNaN) \<and>
   (\<forall>v. pct_change (Val v) (Val 0) = (if 0 < v then PInf else if v < 0 then NInf else FNaN))"
proof (intro conjI allI impI)
  fix out r
  assume a: "comparison_table df = Inr (Some out) \<and> r \<in> set (rows out)"
  then obtain c where out: "rows out = add_changes c"
    and srt: "sorted (map (\<lambda>r. (quadkey r, year r, quarter r)) c)"
    and pct: "\<forall>r\<in>set c. d_kbps_pct_change r = pct_change (avg_d_kbps_mean r) (baseline_d_kbps r)
                  \<and> u_kbps_pct_change r = pct_change (avg_u_kbps_mean r) (baseline_u_kbps r)"
    by (auto elim: comparison_table_sorted)
  from srt have q: "sorted (map quadkey c)"
    by (rule sorted_map_fst)
  from a out obtain j where j: "j < length c" and r: "r = add_changes c ! j"
    by (auto simp: in_set_conv_nth)
  from j pct have p: "d_kbps_pct_change (c ! j) = pct_change (avg_d_kbps_mean (c ! j)) (baseline_d_kbps (c ! j))"
      "u_kbps_pct_change (c ! j) = pct_change (avg_u_kbps_mean (c ! j)) (baseline_u_kbps (c ! j))"
    by simp_all
  show "d_kbps_pct_change r = pct_change (avg_d_kbps_mean r) (baseline_d_kbps r)"
    "u_kbps_pct_change r = pct_change (avg_u_kbps_mean r) (baseline_u_kbps r)"
    "d_kbps_cumulative_change r = d_kbps_pct_change r"
    "u_kbps_cumulative_change r = u_kbps_pct_change r"
    unfolding r add_changes_fields [OF q j] by (simp_all add: p)
qed (simp_all add: comparison_table_no_error pct_change_def split: cell.splits)

theorem pct_change_from_baseline_witness:
  "map_sum id (map_option (map baseline_d_kbps \<circ> rows))
     (comparison_table (bins [bin ''12'' (Val 2024) (Val 1) (Val 100), bin ''12'' (Val 2024) (Val 2) (Val 150),
        bin ''5'' (Val 2024) (Val 1) (Val 0), bin ''5'' (Val 2024) (Val 2) (Val 30),
        bin ''9'' (Val 2024) (Val 2) (Val 7)]))
     = Inr (Some [Val 100, Val 100, Val 0, Val 0, NaN]) \<and>
   map_sum id (map_option (map d_kbps_pct_change \<circ> rows))
     (comparison_table (bins [bin ''12'' (Val 2024) (Val 1) (Val 100), bin ''12'' (Val 2024) (Val 2) (Val 150),
        bin ''5'' (Val 2024) (Val 1) (Val 0), bin ''5'' (Val 2024) (Val 2) (Val 30),
        bin ''9'' (Val 2024) (Val 2) (Val 7)]))
     = Inr (Some [Fin 0, Fin 50, FNaN, PInf, FNaN])"
proof -
  let ?df = "bins [bin ''12'' (Val 2024) (Val 1) (Val 100), bin ''12'' (Val 2024) (Val 2) (Val 150),
            bin ''5'' (Val 2024) (Val 1) (Val 0), bin ''5'' (Val 2024) (Val 2) (Val 30),
            bin ''9'' (Val 2024) (Val 2) (Val 7)]"
  have e: "map_sum id (map_option (map (\<lambda>r. (avg_d_kbps_mean r, baseline_d_kbps r)) \<circ> rows))
     (comparison_table ?df)
     = Inr (Some [(Val 100, Val 100), (Val 150, Val 100), (Val 0, Val 0), (Val 30, Val 0), (Val 7, NaN)])"
    by (simp add: eval_table_defs)
  then obtain out where out: "comparison_table ?df = Inr (Some out)"
    and r: "map (\<lambda>r. (avg_d_kbps_mean r, baseline_d_kbps r)) (rows out)
      = [(Val 100, Val 100), (Val 150, Val 100), (Val 0, Val 0), (Val 30, Val 0), (Val 7, NaN)]"
    by (cases "comparison_table ?df") (auto simp del: bins_def)
  from r have b: "map baseline_d_kbps (rows out) = [Val 100, Val 100, Val 0, Val 0, NaN]"
    by (auto simp: map_eq_Cons_conv)
  from pct_change_from_baseline [of ?df] out
  have "\<forall>r\<in>set (rows out). d_kbps_pct_change r = pct_change (avg_d_kbps_mean r) (baseline_d_kbps r)"
    by blast
  then have "map d_kbps_pct_change (rows out)
    = map (\<lambda>(v, b). pct_change v b) (map (\<lambda>r. (avg_d_kbps_mean r, baseline_d_kbps r)) (rows out))"
    by simp
  also have "\<dots> = [Fin 0, Fin 50, FNaN, PInf, FNaN]"
    unfolding r by (simp add: pct_change_def)
  finally show ?thesis
    using b by (simp add: out)
qed

lemma baseline_rows_empty_iff:
  assumes "sort_values_yq rs = first_row # rest"
  shows "baseline_rows rs first_row = [] \<longleftrightarrow> year first_row = NaN \<or> quarter first_row = NaN"
proof
  assume e: "baseline_rows rs first_row = []"
  have "first_row \<in> set (sort_values_yq rs)"
    using assms by simp
  then have "first_row \<in> set rs"
    by (simp add: sort_values_yq_def)
  with e have "\<not> (pd_eq (year first_row) (year first_row) \<and> pd_eq (quarter first_row) (quarter first_row))"
    by (auto simp: baseline_rows_def filter_empty_conv)
  then show "year first_row = NaN \<or> quarter first_row = NaN"
    by (cases "year first_row"; cases "quarter first_row") simp_all
next
  assume "year first_row = NaN \<or> quarter first_row = NaN"
  then show "baseline_rows rs first_row = []"
    by (auto simp: baseline_rows_def filter_empty_conv pd_eq_def split: cell.splits)
qed

text \<open>
  Claim C6, as the specification states it, fails on the code: when no row belongs to
  the baseline period the function logs a warning and returns \<^verbatim>\<open>None\<close>; it raises
  nothing.
\<close>

theorem no_baseline_is_not_an_error:
  "sort_values_yq (rows (bins [bin ''7'' NaN (Val 1) (Val 100)])) = [bin ''7'' NaN (Val 1) (Val 100)] \<and>
   baseline_rows (rows (bins [bin ''7'' NaN (Val 1) (Val 100)])) (bin ''7'' NaN (Val 1) (Val 100)) = [] \<and>
   create_comparison_file (bins [bin ''7'' NaN (Val 1) (Val 100)]) = Inr None"
  by (simp add: create_comparison_file_def eval_defs pd_eq_def)

text \<open>
  Claim C6, amended. When the frame has rows and no row belongs to the baseline period
  read from the first row in (year, quarter) order, the function returns \<^verbatim>\<open>None\<close> without
  an error and writes no workbook. For this the year or the quarter of that first row
  has to be missing.
\<close>

theorem no_baseline_returns_none:
  assumes "''year'' \<in> set (columns df)" and "''quarter'' \<in> set (columns df)"
    and "sort_values_yq (rows df) = first_row # rest"
    and "baseline_rows (rows df) first_row = []"
  shows "create_comparison_file df = Inr None \<and> comparison_table df = Inr None \<and>
         (year first_row = NaN \<or> quarter first_row = NaN)"
  using assms baseline_rows_empty_iff [OF assms(3)]
  by (simp add: create_comparison_file_def comparison_table_def)

theorem no_baseline_returns_none_witness:
  "''year'' \<in> set (columns (bins [bin ''3'' (Val 2024) NaN (Val 100), bin ''3'' (Val 2025) (Val 1) (Val 120)])) \<and>
   ''quarter'' \<in> set (columns (bins [bin ''3'' (Val 2024) NaN (Val 100), bin ''3'' (Val 2025) (Val 1) (Val 120)])) \<and>
   sort_values_yq (rows (bins [bin ''3'' (Val 2024) NaN (Val 100), bin ''3'' (Val 2025) (Val 1) (Val 120)]))
     = bin ''3'' (Val 2024) NaN (Val 100) # [bin ''3'' (Val 2025) (Val 1) (Val 120)] \<and>
   baseline_rows (rows (bins [bin ''3'' (Val 2024) NaN (Val 100), bin ''3'' (Val 2025) (Val 1) (Val 120)]))
     (bin ''3'' (Val 2024) NaN (Val 100)) = [] \<and>
   create_comparison_file (bins [bin ''3'' (Val 2024) NaN (Val 100), bin ''3'' (Val 2025) (Val 1) (Val 120)]) = Inr None"
proof -
  let ?df = "bins [bin ''3'' (Val 2024) NaN (Val 100), bin ''3'' (Val 2025) (Val 1) (Val 120)]"
  have h: "''year'' \<in> set (columns ?df)" "''quarter'' \<in> set (columns ?df)"
    "sort_values_yq (rows ?df) = bin ''3'' (Val 2024) NaN (Val 100) # [bin ''3'' (Val 2025) (Val 1) (Val 120)]"
    "baseline_rows (rows ?df) (bin ''3'' (Val 2024) NaN (Val 100)) = []"
    by (simp_all add: eval_defs pd_eq_def)
  from no_baseline_returns_none [OF h] h show ?thesis
    by blast
qed

text \<open>
  The year-transition fixture: quadkey 7 with 100 in 2024 Q4 and 120 in 2025 Q1. The
  2025 Q1 row is flagged and its quarter-over-quarter change is 20.
\<close>

theorem year_transition_flag_witness:
  "map_sum id (map_option (map is_year_transition \<circ> rows))
     (comparison_table (bins [bin ''7'' (Val 2025) (Val 1) (Val 120), bin ''7'' (Val 2024) (Val 4) (Val 100)]))
     = Inr (Some [False, True]) \<and>
   map_sum id (map_option (map d_kbps_qoq_change \<circ> rows))
     (comparison_table (bins [bin ''7'' (Val 2025) (Val 1) (Val 120), bin ''7'' (Val 2024) (Val 4) (Val 100)]))
     = Inr (Some [FNaN, Fin 20])"
proof -
  let ?df = "bins [bin ''7'' (Val 2025) (Val 1) (Val 120), bin ''7'' (Val 2024) (Val 4) (Val 100)]"
  have "sort_values_yq (rows ?df) = [bin ''7'' (Val 2024) (Val 4) (Val 100), bin ''7'' (Val 2025) (Val 1) (Val 120)]"
    by (simp add: eval_defs)
  then have "\<exists>out. comparison_table ?df = Inr (Some out)"
    by (rule comparison_table_ok [rotated 5]) (simp_all add: bins_def bin_def)
  then obtain out where out: "comparison_table ?df = Inr (Some out)" ..
  have s: "sort_values_qyq (rows ?df) = [bin ''7'' (Val 2024) (Val 4) (Val 100), bin ''7'' (Val 2025) (Val 1) (Val 120)]"
    by (simp add: eval_defs)
  note t = year_transition_flag [OF out, unfolded s]
  from t have tr: "map agg_row.truncate (rows out) = [bin ''7'' (Val 2024) (Val 4) (Val 100), bin ''7'' (Val 2025) (Val 1) (Val 120)]"
    by blast
  then obtain a b where ab: "rows out = [a, b]"
    and a: "agg_row.truncate a = bin ''7'' (Val 2024) (Val 4) (Val 100)"
    and b: "agg_row.truncate b = bin ''7'' (Val 2025) (Val 1) (Val 120)"
    by auto
  have fa: "quadkey a = ''7''" "avg_d_kbps_mean a = Val 100" "year a = Val 2024" "quarter a = Val 4"
    using arg_cong [OF a, of quadkey] arg_cong [OF a, of avg_d_kbps_mean]
      arg_cong [OF a, of year] arg_cong [OF a, of quarter]
    by (simp_all add: agg_row.defs bin_def)
  have fb: "quadkey b = ''7''" "avg_d_kbps_mean b = Val 120" "year b = Val 2025" "quarter b = Val 1"
    using arg_cong [OF b, of quadkey] arg_cong [OF b, of avg_d_kbps_mean]
      arg_cong [OF b, of year] arg_cong [OF b, of quarter]
    by (simp_all add: agg_row.defs bin_def)
  from t have q: "\<forall>i<length (rows out).
           (is_year_transition (rows out ! i) \<longleftrightarrow>
              quarter (rows out ! i) = Val 1 \<and> 0 < i \<and>
              quadkey (rows out ! (i - 1)) = quadkey (rows out ! i) \<and>
              quarter (rows out ! (i - 1)) = Val 4 \<and>
              year (rows out ! (i - 1)) \<noteq> year (rows out ! i)) \<and>
           d_kbps_qoq_change (rows out ! i) =
              (if 0 < i \<and> quadkey (rows out ! (i - 1)) = quadkey (rows out ! i)
               then pct_change (avg_d_kbps_mean (rows out ! i)) (avg_d_kbps_mean (rows out ! (i - 1)))
               else FNaN)"
    by blast
  from q [rule_format, of 0] q [rule_format, of 1]
  have "map is_year_transition (rows out) = [False, True]"
       "map d_kbps_qoq_change (rows out) = [FNaN, Fin 20]"
    by (simp_all add: ab fa fb pct_change_def)
  then show ?thesis
    by (simp add: out)
qed

section \<open>Properties of the aggregation\<close>



























lemma with_latlon_counts [simp]:
  "tests (with_latlon r) = tests r" "devices (with_latlon r) = devices r"
  by (simp_all add: with_latlon_def split: sum.splits)











end
